theory Spec2Isabelle
  imports
    Main
    "HOL-Library.AList"
    "HOL-Library.Char_ord"
    "HOL-Library.List_Lexorder"
    "HOL-Library.Product_Lexorder"
    "HOL-Library.Multiset"
begin

section \<open>Values of the program\<close>

text \<open>
  The exceptions that the solver can raise.  None of them is raised by a \<open>raise\<close>
  statement of \<open>solver.py\<close>: they come from attribute access on the wrong kind of object
  (\<open>AttributeError\<close>), from subscripting a dictionary (\<open>KeyError\<close>), from \<open>min\<close> of an
  empty sequence, \<open>int\<close> of a non-numeral, \<open>reshape\<close> and the truth value of an array
  (\<open>ValueError\<close>), and from \<open>np.sum\<close> along an axis that the array does not have
  (\<open>AxisError\<close>).
\<close>

datatype error = AttributeError | KeyError | ValueError | AxisError

text \<open>
  A numpy array of integers: its shape and its entries in row-major order (what
  \<open>flatten()\<close> returns).  A numpy array always has as many entries as its shape says;
  \<open>wf_ndarray\<close> states this.  Entries are unbounded integers: the solver only adds up
  81 entries between 1 and 9, where the width of the array's integer type plays no role.
\<close>

record ndarray =
  shape :: "nat list"
  data :: "int list"

definition wf_ndarray :: "ndarray \<Rightarrow> bool" where
  "wf_ndarray a \<longleftrightarrow> length (data a) = prod_list (shape a)"

text \<open>
  The puzzle state is a Python dictionary from cell names to candidate strings.  A
  dictionary iterates in insertion order and an assignment to an existing key keeps the
  key's position, so the state is an association list; its keys are distinct.
\<close>

type_synonym state = "(string \<times> string) list"

text \<open>
  \<open>solve\<close> is called with an array by the harness and with a dictionary by
  \<open>propagate\<close> (line 118), so its argument is either.
\<close>

datatype pyobj = NdArray ndarray | Dict state

text \<open>What \<open>propagate\<close> can return: \<open>False\<close>, \<open>None\<close> (falling off the end of the
  function), the solved dictionary, or the array returned by the nested \<open>solve\<close>.\<close>

datatype presult = RFalse | RNone | RDict state | RArray ndarray

text \<open>The values of a dictionary while \<open>to_numpy_array\<close> rewrites it: strings not yet
  converted and integers already converted.\<close>

datatype dval = SVal string | IVal int

text \<open>
  The iteration order of a Python \<open>set\<close> of one-character strings is not fixed by the
  language (it depends on the hash seed of the process), and \<open>''.join(set(...) - ...)\<close>
  writes a candidate string in that order.  The order is a parameter \<open>so\<close> of the model:
  it receives the elements of the set as a list and returns them in the order of
  iteration.  \<open>set_order so\<close> says that \<open>so\<close> only rearranges.
\<close>

definition set_order :: "(string \<Rightarrow> string) \<Rightarrow> bool" where
  "set_order so \<longleftrightarrow> (\<forall>xs. mset (so xs) = mset xs)"

section \<open>Conversions between integers and strings\<close>

fun str_nat :: "nat \<Rightarrow> string" where
  "str_nat n =
     (if n < 10 then [''0123456789'' ! n]
      else str_nat (n div 10) @ [''0123456789'' ! (n mod 10)])"

declare str_nat.simps [simp del]

definition str_int :: "int \<Rightarrow> string" where
  "str_int v = (if v < 0 then CHR ''-'' # str_nat (nat (- v)) else str_nat (nat v))"

definition is_digit :: "char \<Rightarrow> bool" where
  "is_digit c \<longleftrightarrow> c \<in> set ''0123456789''"

definition digit_val :: "char \<Rightarrow> int" where
  "digit_val c = int (of_char c) - 48"

definition decimal :: "string \<Rightarrow> int" where
  "decimal s = foldl (\<lambda>acc c. 10 * acc + digit_val c) 0 s"

text \<open>
  \<open>int(value)\<close> for a string: an optional sign followed by at least one decimal digit,
  \<open>ValueError\<close> otherwise.  (Python also accepts surrounding white space and
  underscores between digits; candidate strings are made of the characters of
  \<open>str\<close> of an integer, so these never occur.)
\<close>

definition py_int :: "string \<Rightarrow> error + int" where
  "py_int s =
     (case s of
        [] \<Rightarrow> Inl ValueError
      | c # cs \<Rightarrow>
          if c = CHR ''-'' \<and> cs \<noteq> [] \<and> list_all is_digit cs then Inr (- decimal cs)
          else if c = CHR ''+'' \<and> cs \<noteq> [] \<and> list_all is_digit cs then Inr (decimal cs)
          else if list_all is_digit s then Inr (decimal s)
          else Inl ValueError)"

section \<open>Solver construction: cells and the neighbour table\<close>

definition digits :: string where
  "digits = ''123456789''"

text \<open>\<open>[x + y for x in A for y in B]\<close> for strings \<open>A\<close> and \<open>B\<close>.\<close>

definition cross :: "string \<Rightarrow> string \<Rightarrow> string list" where
  "cross A B = concat (map (\<lambda>x. map (\<lambda>y. [x, y]) B) A)"

definition cells :: "string list" where
  "cells = cross digits digits"

definition no_solution :: ndarray where
  "no_solution = \<lparr>shape = [9, 9], data = replicate 81 (- 1)\<rparr>"

definition rows :: "string list list" where
  "rows = map (\<lambda>r. cross [r] digits) digits"

definition columns :: "string list list" where
  "columns = map (\<lambda>c. cross digits [c]) digits"

definition subgrids :: "string list list" where
  "subgrids =
     concat (map (\<lambda>r. map (\<lambda>c. cross r c) [''123'', ''456'', ''789''])
       [''123'', ''456'', ''789''])"

definition permutations :: "string \<Rightarrow> string list list" where
  "permutations c = filter (\<lambda>p. c \<in> set p) (rows @ columns @ subgrids)"

text \<open>
  \<open>self.neighbours\<close> is a dictionary whose keys are the cells; its values are sets, given
  here by a list without repetitions.  The solver only iterates over such a set to collect
  values into another set, so the order of the list is immaterial.
\<close>

definition neighbours :: "string \<Rightarrow> string list option" where
  "neighbours c =
     (if c \<in> set cells then Some (removeAll c (remdups (concat (permutations c))))
      else None)"

section \<open>Grid codec\<close>

definition to_dictionary :: "pyobj \<Rightarrow> string \<Rightarrow> error + state" where
  "to_dictionary x empty_cell =
     (case x of
        Dict _ \<Rightarrow> Inl AttributeError
      | NdArray numpy_array \<Rightarrow>
          Inr (map (\<lambda>(key, value).
                 let str_value = str_int value
                 in (key, if str_value = empty_cell then digits else str_value))
               (zip cells (data numpy_array))))"

text \<open>
  The loop of \<open>to_numpy_array\<close> assigns \<open>int(value)\<close> to every key in turn.  It returns
  the dictionary as the loop leaves it, and the converted values or the exception of the
  first failing conversion (the entries after it keep their strings).
\<close>

fun int_values :: "state \<Rightarrow> (string \<times> dval) list \<times> (error + int list)" where
  "int_values [] = ([], Inr [])"
| "int_values ((key, value) # rest) =
     (case py_int value of
        Inl e \<Rightarrow> ((key, SVal value) # map (\<lambda>(k, v). (k, SVal v)) rest, Inl e)
      | Inr n \<Rightarrow>
          (case int_values rest of
             (rest', Inl e) \<Rightarrow> ((key, IVal n) # rest', Inl e)
           | (rest', Inr ns) \<Rightarrow> ((key, IVal n) # rest', Inr (n # ns))))"

definition reshape99 :: "int list \<Rightarrow> error + ndarray" where
  "reshape99 vs =
     (if length vs = 81 then Inr \<lparr>shape = [9, 9], data = vs\<rparr> else Inl ValueError)"

text \<open>\<open>to_numpy_array\<close> returns the caller's dictionary after the call together with
  the result of the call.\<close>

definition to_numpy_array :: "state \<Rightarrow> (string \<times> dval) list \<times> (error + ndarray)" where
  "to_numpy_array dictionary =
     (case int_values dictionary of
        (dictionary', Inl e) \<Rightarrow> (dictionary', Inl e)
      | (dictionary', Inr vs) \<Rightarrow> (dictionary', reshape99 vs))"

section \<open>Validator\<close>

definition is_valid_puzzle :: "pyobj \<Rightarrow> error + bool" where
  "is_valid_puzzle x =
     (case x of
        Dict _ \<Rightarrow> Inl AttributeError
      | NdArray sudoku \<Rightarrow>
          Inr (if shape sudoku \<noteq> [9, 9] then False
               else list_all (\<lambda>i. list_all (\<lambda>j.
                      \<not> (data sudoku ! (i * 9 + j) < 0 \<or> data sudoku ! (i * 9 + j) > 9))
                      [0..<9]) [0..<9]))"

text \<open>\<open>np.sum(sudoku, axis=0)\<close>: the sums along the first axis.\<close>

definition sum_axis0 :: "ndarray \<Rightarrow> error + ndarray" where
  "sum_axis0 a =
     (case shape a of
        [] \<Rightarrow> Inl AxisError
      | n # rest \<Rightarrow>
          (let stride = prod_list rest
           in Inr \<lparr>shape = rest,
                   data = map (\<lambda>j. sum_list (map (\<lambda>i. data a ! (i * stride + j)) [0..<n]))
                            [0..<stride]\<rparr>))"

definition is_valid_solution :: "ndarray \<Rightarrow> error + bool" where
  "is_valid_solution sudoku =
     (case sum_axis0 sudoku of
        Inl e \<Rightarrow> Inl e
      | Inr column_sums \<Rightarrow> Inr (sum_list (data column_sums) = 9 * 45))"

section \<open>Propagator\<close>

definition getitem :: "state \<Rightarrow> string \<Rightarrow> error + string" where
  "getitem sudoku k = (case map_of sudoku k of None \<Rightarrow> Inl KeyError | Some v \<Rightarrow> Inr v)"

text \<open>\<open>[sudoku[k] for k in ks if len(sudoku[k]) == 1]\<close>\<close>

fun solved_values :: "state \<Rightarrow> string list \<Rightarrow> error + string list" where
  "solved_values sudoku [] = Inr []"
| "solved_values sudoku (k # ks) =
     (case getitem sudoku k of
        Inl e \<Rightarrow> Inl e
      | Inr v \<Rightarrow>
          (case solved_values sudoku ks of
             Inl e \<Rightarrow> Inl e
           | Inr vs \<Rightarrow> Inr (if length v = 1 then v # vs else vs)))"

text \<open>The body of the loop of lines 91 to 96, for one key.\<close>

definition eliminate :: "(string \<Rightarrow> string) \<Rightarrow> state \<Rightarrow> string \<Rightarrow> error + state" where
  "eliminate so sudoku key =
     (case getitem sudoku key of
        Inl e \<Rightarrow> Inl e
      | Inr value \<Rightarrow>
          if length value \<noteq> 1 then
            (case neighbours key of
               None \<Rightarrow> Inl KeyError
             | Some ns \<Rightarrow>
                 (case solved_values sudoku ns of
                    Inl e \<Rightarrow> Inl e
                  | Inr solved_neighbours \<Rightarrow>
                      Inr (AList.update key
                             (so (filter (\<lambda>ch. [ch] \<notin> set solved_neighbours) (remdups value)))
                             sudoku)))
          else Inr sudoku)"

text \<open>The loop of lines 91 to 96 over the keys that remain to be visited.\<close>

fun pass :: "(string \<Rightarrow> string) \<Rightarrow> string list \<Rightarrow> state \<Rightarrow> error + state" where
  "pass so [] sudoku = Inr sudoku"
| "pass so (key # keys) sudoku =
     (case eliminate so sudoku key of
        Inl e \<Rightarrow> Inl e
      | Inr sudoku' \<Rightarrow> pass so keys sudoku')"

definition solved_count :: "state \<Rightarrow> nat" where
  "solved_count sudoku = length (filter (\<lambda>(c, v). length v = 1) sudoku)"

definition empty_count :: "state \<Rightarrow> nat" where
  "empty_count sudoku = length (filter (\<lambda>(c, v). length v = 0) sudoku)"

text \<open>
  The \<open>while True\<close> loop of lines 87 to 104.  It returns \<open>None\<close> where the source
  returns \<open>False\<close> from inside the loop, and the state where the source leaves the loop
  by \<open>break\<close>.
\<close>

function fixpoint :: "(string \<Rightarrow> string) \<Rightarrow> state \<Rightarrow> error + state option" where
  "fixpoint so sudoku =
     (let prev_solved = solved_count sudoku
      in case pass so (map fst sudoku) sudoku of
           Inl e \<Rightarrow> Inl e
         | Inr sudoku' \<Rightarrow>
             if prev_solved = solved_count sudoku' then Inr (Some sudoku')
             else if empty_count sudoku' \<noteq> 0 then Inr None
             else fixpoint so sudoku')"
  by pat_completeness auto

text \<open>
  \<open>min((len(value), key) for key, value in sudoku.items() if len(value) > 1)\<close>: tuples
  compare by length first and by key second, keys as strings; \<open>min\<close> of an empty
  sequence raises \<open>ValueError\<close>.
\<close>

definition min_unsolved :: "state \<Rightarrow> error + nat \<times> string" where
  "min_unsolved sudoku =
     (case [(length value, key). (key, value) \<leftarrow> sudoku, length value > 1] of
        [] \<Rightarrow> Inl ValueError
      | xs \<Rightarrow> Inr (min_list xs))"

text \<open>The truth value of an array (\<open>if next_solve:\<close>) is defined for at most one
  entry.\<close>

definition truth_array :: "ndarray \<Rightarrow> error + bool" where
  "truth_array a =
     (case data a of [] \<Rightarrow> Inr False | [v] \<Rightarrow> Inr (v \<noteq> 0) | _ \<Rightarrow> Inl ValueError)"

definition truthy :: "presult \<Rightarrow> error + bool" where
  "truthy r =
     (case r of
        RFalse \<Rightarrow> Inr False
      | RNone \<Rightarrow> Inr False
      | RDict d \<Rightarrow> Inr (d \<noteq> [])
      | RArray a \<Rightarrow> truth_array a)"

text \<open>
  \<open>solve\<close>, \<open>propagate\<close> and the \<open>for digit in sudoku[min_key]\<close> loop of
  \<open>propagate\<close> (\<open>guess\<close>, over the digits still to be tried) call each other as in the
  source: \<open>propagate\<close> hands the copied dictionary to \<open>solve\<close>, not to itself.
\<close>

function solve :: "(string \<Rightarrow> string) \<Rightarrow> pyobj \<Rightarrow> error + ndarray"
  and propagate :: "(string \<Rightarrow> string) \<Rightarrow> state \<Rightarrow> error + presult"
  and guess :: "(string \<Rightarrow> string) \<Rightarrow> state \<Rightarrow> string \<Rightarrow> string \<Rightarrow> error + presult"
where
  "solve so sudoku =
     (case is_valid_puzzle sudoku of
        Inl e \<Rightarrow> Inl e
      | Inr False \<Rightarrow> Inr no_solution
      | Inr True \<Rightarrow>
          (case to_dictionary sudoku ''0'' of
             Inl e \<Rightarrow> Inl e
           | Inr dictionary \<Rightarrow>
               (case propagate so dictionary of
                  Inl e \<Rightarrow> Inl e
                | Inr solution_dict \<Rightarrow>
                    (case truthy solution_dict of
                       Inl e \<Rightarrow> Inl e
                     | Inr False \<Rightarrow> Inr no_solution
                     | Inr True \<Rightarrow>
                         (case solution_dict of
                            RDict d \<Rightarrow>
                              (case snd (to_numpy_array d) of
                                 Inl e \<Rightarrow> Inl e
                               | Inr solution_array \<Rightarrow>
                                   (case is_valid_solution solution_array of
                                      Inl e \<Rightarrow> Inl e
                                    | Inr False \<Rightarrow> Inr no_solution
                                    | Inr True \<Rightarrow> Inr solution_array))
                          | _ \<Rightarrow> Inl AttributeError)))))"
| "propagate so sudoku =
     (case fixpoint so sudoku of
        Inl e \<Rightarrow> Inl e
      | Inr None \<Rightarrow> Inr RFalse
      | Inr (Some sudoku') \<Rightarrow>
          if list_all (\<lambda>(key, value). length value = 1) sudoku' then Inr (RDict sudoku')
          else
            (case min_unsolved sudoku' of
               Inl e \<Rightarrow> Inl e
             | Inr (len, key) \<Rightarrow>
                 (case getitem sudoku' key of
                    Inl e \<Rightarrow> Inl e
                  | Inr value \<Rightarrow> guess so sudoku' key value)))"
| "guess so sudoku min_key [] = Inr RNone"
| "guess so sudoku min_key (digit # rest) =
     (let next_state = AList.update min_key [digit] sudoku
      in case solve so (Dict next_state) of
           Inl e \<Rightarrow> Inl e
         | Inr next_solve \<Rightarrow>
             (case truth_array next_solve of
                Inl e \<Rightarrow> Inl e
              | Inr True \<Rightarrow> Inr (RArray next_solve)
              | Inr False \<Rightarrow> guess so sudoku min_key rest))"
  by pat_completeness auto

section \<open>Notions of the specification\<close>

text \<open>A row, column or box holds each of the digits 1 to 9 exactly once.\<close>

definition unit_ok :: "int list \<Rightarrow> bool" where
  "unit_ok vs \<longleftrightarrow> list_all (\<lambda>d. count_list vs d = 1) [1, 2, 3, 4, 5, 6, 7, 8, 9]"

definition row_values :: "ndarray \<Rightarrow> nat \<Rightarrow> int list" where
  "row_values a i = map (\<lambda>j. data a ! (i * 9 + j)) [0..<9]"

definition column_values :: "ndarray \<Rightarrow> nat \<Rightarrow> int list" where
  "column_values a j = map (\<lambda>i. data a ! (i * 9 + j)) [0..<9]"

definition box_values :: "ndarray \<Rightarrow> nat \<Rightarrow> int list" where
  "box_values a b =
     map (\<lambda>(i, j). data a ! ((3 * (b div 3) + i) * 9 + (3 * (b mod 3) + j)))
       [(i, j). i \<leftarrow> [0..<3], j \<leftarrow> [0..<3]]"

definition valid_sudoku :: "ndarray \<Rightarrow> bool" where
  "valid_sudoku a \<longleftrightarrow>
     shape a = [9, 9] \<and> length (data a) = 81 \<and>
     list_all (\<lambda>i. unit_ok (row_values a i) \<and> unit_ok (column_values a i) \<and>
                    unit_ok (box_values a i)) [0..<9]"

text \<open>The position of a cell in the construction order of \<open>cells\<close> (row-major).\<close>

definition position :: "string \<Rightarrow> nat" where
  "position c = length (takeWhile (\<lambda>k. k \<noteq> c) cells)"

text \<open>Row, column and box of a cell, counted from 0: a cell name is the digit of its
  row followed by the digit of its column, both counted from 1.\<close>

fun row_of :: "string \<Rightarrow> nat" where
  "row_of (r # _) = nat (digit_val r - 1)"
| "row_of [] = 0"

fun column_of :: "string \<Rightarrow> nat" where
  "column_of (_ # c # _) = nat (digit_val c - 1)"
| "column_of _ = 0"

definition box_of :: "string \<Rightarrow> nat \<times> nat" where
  "box_of c = (row_of c div 3, column_of c div 3)"

text \<open>The neighbours of a cell in the words of the specification: the other cells that
  share its row, its column or its box.\<close>

definition is_neighbour :: "string \<Rightarrow> string \<Rightarrow> bool" where
  "is_neighbour c k \<longleftrightarrow>
     k \<noteq> c \<and> (row_of k = row_of c \<or> column_of k = column_of c \<or> box_of k = box_of c)"

section \<open>Example grids\<close>

text \<open>The state in which every cell has all nine candidates (the decoded empty grid).\<close>

definition zero_state :: state where
  "zero_state = map (\<lambda>c. (c, digits)) cells"

definition zero_grid :: ndarray where
  "zero_grid = \<lparr>shape = [9, 9], data = replicate 81 0\<rparr>"

definition fives_grid :: ndarray where
  "fives_grid = \<lparr>shape = [9, 9], data = replicate 81 5\<rparr>"

text \<open>A solved sudoku.\<close>

definition solved_grid :: ndarray where
  "solved_grid = \<lparr>shape = [9, 9], data =
     [5, 3, 4, 6, 7, 8, 9, 1, 2,
      6, 7, 2, 1, 9, 5, 3, 4, 8,
      1, 9, 8, 3, 4, 2, 5, 6, 7,
      8, 5, 9, 7, 6, 1, 4, 2, 3,
      4, 2, 6, 8, 5, 3, 7, 9, 1,
      7, 1, 3, 9, 2, 4, 8, 5, 6,
      9, 6, 1, 5, 3, 7, 2, 8, 4,
      2, 8, 7, 4, 1, 9, 6, 3, 5,
      3, 4, 5, 2, 8, 6, 1, 7, 9]\<rparr>"

text \<open>The solved sudoku with its first cell emptied and a second 5 in the first row: the
  neighbours of the first cell hold all nine digits.\<close>

definition conflict_grid :: ndarray where
  "conflict_grid = \<lparr>shape = [9, 9], data =
     [0, 5, 4, 6, 7, 8, 9, 1, 2,
      6, 7, 2, 1, 9, 5, 3, 4, 8,
      1, 9, 8, 3, 4, 2, 5, 6, 7,
      8, 5, 9, 7, 6, 1, 4, 2, 3,
      4, 2, 6, 8, 5, 3, 7, 9, 1,
      7, 1, 3, 9, 2, 4, 8, 5, 6,
      9, 6, 1, 5, 3, 7, 2, 8, 4,
      2, 8, 7, 4, 1, 9, 6, 3, 5,
      3, 4, 5, 2, 8, 6, 1, 7, 9]\<rparr>"

text \<open>The state decoded from \<open>conflict_grid\<close>, as \<open>solve\<close> hands it to \<open>propagate\<close>.\<close>

definition conflict_state :: state where
  "conflict_state =
     (case to_dictionary (NdArray conflict_grid) ''0'' of Inl e \<Rightarrow> [] | Inr d \<Rightarrow> d)"

section \<open>Termination\<close>

text \<open>
  A pass never touches a solved cell and never adds or removes a key, so the number of
  solved cells can only grow and is bounded by the number of cells: the loop, which goes
  on only while the number changes, ends.
\<close>

lemma update_existing_keys:
  "map_of s k = Some v \<Longrightarrow> map fst (AList.update k v' s) = map fst s"
  by (induction s) (auto split: if_splits)

lemma solved_count_update:
  "map_of s k = Some v \<Longrightarrow> length v \<noteq> 1 \<Longrightarrow>
   solved_count s \<le> solved_count (AList.update k v' s)"
  by (induction s) (auto simp: solved_count_def split: if_splits)

lemma eliminate_keys: "eliminate so s k = Inr s' \<Longrightarrow> map fst s' = map fst s"
  by (auto simp: eliminate_def getitem_def update_existing_keys
      split: option.splits sum.splits if_splits)

lemma eliminate_solved_count: "eliminate so s k = Inr s' \<Longrightarrow> solved_count s \<le> solved_count s'"
  by (auto simp: eliminate_def getitem_def solved_count_update
      split: option.splits sum.splits if_splits)

lemma pass_keys: "pass so ks s = Inr s' \<Longrightarrow> map fst s' = map fst s"
  by (induction ks arbitrary: s) (auto split: sum.splits dest: eliminate_keys)

lemma pass_solved_count: "pass so ks s = Inr s' \<Longrightarrow> solved_count s \<le> solved_count s'"
  by (induction ks arbitrary: s) (fastforce split: sum.splits dest: eliminate_solved_count)+

lemma solved_count_le: "solved_count s \<le> length s"
  by (simp add: solved_count_def)

termination fixpoint
proof (relation "measure (\<lambda>(so, s). length s - solved_count s)")
  show "wf (measure (\<lambda>(so, s). length s - solved_count s))" by simp
next
  fix so :: "string \<Rightarrow> string" and sudoku :: state and x and sudoku' :: state
  assume x: "x = solved_count sudoku"
    and p: "pass so (map fst sudoku) sudoku = Inr sudoku'"
    and ne: "x \<noteq> solved_count sudoku'"
  from p have len: "length sudoku' = length sudoku"
    using pass_keys map_eq_imp_length_eq by metis
  from p have "solved_count sudoku \<le> solved_count sudoku'" by (rule pass_solved_count)
  with x ne have "solved_count sudoku < solved_count sudoku'" by simp
  moreover have "solved_count sudoku' \<le> length sudoku'" by (rule solved_count_le)
  ultimately show "((so, sudoku'), (so, sudoku)) \<in> measure (\<lambda>(so, s). length s - solved_count s)"
    using len by simp
qed

text \<open>
  \<open>solve\<close> reaches \<open>propagate\<close> only with an array, and \<open>propagate\<close> calls \<open>solve\<close>
  only with a dictionary, which \<open>is_valid_puzzle\<close> rejects with an exception: the chain
  of calls has length at most four, plus the length of the candidate string.
\<close>

termination solve
  apply (relation "measures
     [\<lambda>x. case x of
             Inl (so, obj) \<Rightarrow> (case obj of NdArray _ \<Rightarrow> 3 | Dict _ \<Rightarrow> 0)
           | Inr (Inl _) \<Rightarrow> 2
           | Inr (Inr _) \<Rightarrow> 1,
      \<lambda>x. case x of
             Inr (Inr (so, sudoku, key, ds)) \<Rightarrow> length ds
           | _ \<Rightarrow> 0]")
  apply (auto simp: is_valid_puzzle_def split: pyobj.splits)
  done

declare fixpoint.simps [simp del]
declare solve.simps [simp del]
declare propagate.simps [simp del]
declare guess.simps [simp del]

section \<open>The guess step\<close>

lemma solve_Dict: "solve so (Dict d) = Inl AttributeError"
  by (simp add: solve.simps is_valid_puzzle_def)

text \<open>
  Claim C2.  When the loop stalls, \<open>propagate\<close> should copy the state for each candidate
  digit of the chosen cell, fix the cell to the digit, run full propagation on the copy
  and return the first solved branch.  The source passes the copy to \<open>solve\<close> instead,
  which asks a dictionary for its \<open>shape\<close>: for every state, every chosen cell and every
  non-empty candidate string the loop over the digits raises \<open>AttributeError\<close> at the
  first digit.  No branch is propagated and no later digit is tried.
\<close>

theorem guess_raises_AttributeError:
  "guess so sudoku min_key (digit # rest) = Inl AttributeError"
  by (simp add: guess.simps solve_Dict)

section \<open>Digits as strings\<close>

lemma digit_cases:
  "(0::int) \<le> v \<Longrightarrow> v \<le> 9 \<Longrightarrow> v = 0 \<or> v = 1 \<or> v = 2 \<or> v = 3 \<or> v = 4 \<or> v = 5 \<or> v = 6 \<or> v = 7 \<or> v = 8 \<or> v = 9"
  by arith

lemma str_int_lit:
  "str_int 0 = ''0''" "str_int 1 = ''1''" "str_int 2 = ''2''" "str_int 3 = ''3''" "str_int 4 = ''4''"
  "str_int 5 = ''5''" "str_int 6 = ''6''" "str_int 7 = ''7''" "str_int 8 = ''8''" "str_int 9 = ''9''"
  by (simp_all add: str_int_def str_nat.simps)

lemma py_int_lit:
  "py_int ''0'' = Inr 0" "py_int ''1'' = Inr 1" "py_int ''2'' = Inr 2" "py_int ''3'' = Inr 3"
  "py_int ''4'' = Inr 4" "py_int ''5'' = Inr 5" "py_int ''6'' = Inr 6" "py_int ''7'' = Inr 7"
  "py_int ''8'' = Inr 8" "py_int ''9'' = Inr 9"
  by (simp_all add: py_int_def is_digit_def decimal_def digit_val_def)

lemma str_int_digit:
  assumes "0 \<le> v" and "v \<le> 9"
  shows "length (str_int v) = 1" and "py_int (str_int v) = Inr v" and "str_int v = ''0'' \<longleftrightarrow> v = 0"
  using digit_cases [OF assms]
  by (auto simp: str_int_lit py_int_lit)


lemma length_cells: "length cells = 81"
  by (simp add: cells_def cross_def digits_def)

lemma distinct_cells: "distinct cells"
  by (simp add: cells_def cross_def digits_def)

lemma to_dictionary_filled:
  assumes "list_all (\<lambda>v. 1 \<le> v \<and> v \<le> 9) vs"
  shows "to_dictionary (NdArray \<lparr>shape = sh, data = vs\<rparr>) ''0'' = Inr (zip cells (map str_int vs))"
proof -
  have "map (\<lambda>(key, value). let str_value = str_int value
           in (key, if str_value = ''0'' then digits else str_value)) (zip ks vs)
        = zip ks (map str_int vs)" for ks
    using assms
  proof (induction vs arbitrary: ks)
    case Nil
    then show ?case by simp
  next
    case (Cons v vs)
    then have "str_int v \<noteq> ''0''" using str_int_digit(3) [of v] by simp
    with Cons show ?case by (cases ks) (simp_all add: Let_def)
  qed
  then show ?thesis by (simp add: to_dictionary_def)
qed

lemma int_values_str_int:
  assumes "list_all (\<lambda>v. 0 \<le> v \<and> v \<le> 9) vs" and "length ks = length vs"
  shows "int_values (zip ks (map str_int vs)) = (zip ks (map IVal vs), Inr vs)"
  using assms
proof (induction vs arbitrary: ks)
  case Nil
  then show ?case by simp
next
  case (Cons v vs)
  then obtain k ks' where ks: "ks = k # ks'" by (cases ks) auto
  from Cons.prems have "py_int (str_int v) = Inr v" by (simp add: str_int_digit(2))
  with Cons ks show ?case by simp
qed

lemma all_solved_str_int:
  assumes "list_all (\<lambda>v. 0 \<le> v \<and> v \<le> 9) vs"
  shows "list_all (\<lambda>(key, value). length value = 1) (zip ks (map str_int vs))"
  using assms
proof (induction vs arbitrary: ks)
  case Nil
  then show ?case by simp
next
  case (Cons v vs)
  then show ?case by (cases ks) (simp_all add: str_int_digit(1))
qed

section \<open>States in which every cell is solved\<close>

lemma eliminate_solved:
  assumes "list_all (\<lambda>(key, value). length value = 1) s" and "k \<in> set (map fst s)"
  shows "eliminate so s k = Inr s"
proof -
  from assms(2) obtain v where v: "map_of s k = Some v"
    by (metis map_of_eq_None_iff not_Some_eq set_map)
  then have "(k, v) \<in> set s" by (rule map_of_SomeD)
  with assms(1) have "length v = 1" by (auto simp: list_all_iff)
  with v show ?thesis by (simp add: eliminate_def getitem_def)
qed

lemma pass_solved:
  assumes "list_all (\<lambda>(key, value). length value = 1) s" and "set ks \<subseteq> set (map fst s)"
  shows "pass so ks s = Inr s"
  using assms(2) by (induction ks) (simp_all add: eliminate_solved [OF assms(1)])

lemma fixpoint_solved:
  assumes "list_all (\<lambda>(key, value). length value = 1) s"
  shows "fixpoint so s = Inr (Some s)"
  by (simp add: fixpoint.simps pass_solved [OF assms])

lemma propagate_solved:
  assumes "list_all (\<lambda>(key, value). length value = 1) s"
  shows "propagate so s = Inr (RDict s)"
  using assms by (simp add: propagate.simps fixpoint_solved [OF assms])

section \<open>The sum check and filled grids\<close>

lemma sum_grid:
  fixes g :: "nat \<Rightarrow> int"
  shows "(\<Sum>j = 0..<c. \<Sum>i = 0..<r. g (i * c + j)) = (\<Sum>k = 0..<r * c. g k)"
proof -
  have "(\<Sum>j = 0..<c. \<Sum>i = 0..<r. g (i * c + j)) = (\<Sum>i = 0..<r. \<Sum>j = 0..<c. g (i * c + j))"
    by (rule sum.swap)
  also have "\<dots> = (\<Sum>i<r. sum g {i * c..<i * c + c})"
  proof -
    have "(\<Sum>j = 0..<c. g (i * c + j)) = sum g {i * c..<i * c + c}" for i
      using sum.shift_bounds_nat_ivl [of g 0 "i * c" c] by (simp add: add.commute)
    then show ?thesis by (simp add: atLeast0LessThan)
  qed
  also have "\<dots> = sum g {..<r * c}" by (rule sum.nat_group)
  finally show ?thesis by (simp add: atLeast0LessThan)
qed

lemma sum_axis0_total:
  assumes "shape a = [r, c]" and "length (data a) = r * c"
  shows "\<exists>cs. sum_axis0 a = Inr cs \<and> sum_list (data cs) = sum_list (data a)"
proof -
  have "sum_list (map (\<lambda>j. sum_list (map (\<lambda>i. data a ! (i * c + j)) [0..<r])) [0..<c])
        = (\<Sum>j = 0..<c. \<Sum>i = 0..<r. data a ! (i * c + j))"
    by (simp add: interv_sum_list_conv_sum_set_nat)
  also have "\<dots> = (\<Sum>k = 0..<r * c. data a ! k)" by (rule sum_grid)
  also have "\<dots> = sum_list (data a)" using assms(2) by (simp add: sum_list_sum_nth)
  finally show ?thesis using assms(1) by (simp add: sum_axis0_def)
qed

lemma is_valid_solution_sum:
  assumes "shape a = [9, 9]" and "length (data a) = 81"
  shows "is_valid_solution a = Inr (sum_list (data a) = 405)"
proof -
  from assms have "length (data a) = 9 * 9" by simp
  with sum_axis0_total [OF assms(1)] obtain cs
    where "sum_axis0 a = Inr cs" and "sum_list (data cs) = sum_list (data a)" by blast
  then show ?thesis by (simp add: is_valid_solution_def)
qed

lemma solve_filled:
  assumes sh: "shape a = [9, 9]" and len: "length (data a) = 81"
    and rng: "list_all (\<lambda>v. 1 \<le> v \<and> v \<le> 9) (data a)"
  shows "solve so (NdArray a) = Inr (if sum_list (data a) = 405 then a else no_solution)"
proof -
  let ?d = "zip cells (map str_int (data a))"
  have a: "a = \<lparr>shape = [9, 9], data = data a\<rparr>" using sh by simp
  have rng0: "list_all (\<lambda>v. 0 \<le> v \<and> v \<le> 9) (data a)"
    using rng by (auto simp: list_all_iff)
  have valid: "is_valid_puzzle (NdArray a) = Inr True"
  proof -
    have "\<not> (data a ! (i * 9 + j) < 0 \<or> data a ! (i * 9 + j) > 9)" if "i < 9" "j < 9" for i j
    proof -
      from that len have "i * 9 + j < length (data a)" by simp
      then have "data a ! (i * 9 + j) \<in> set (data a)" by (rule nth_mem)
      with rng0 show ?thesis by (auto simp: list_all_iff)
    qed
    then show ?thesis using sh by (simp add: is_valid_puzzle_def list_all_iff)
  qed
  have dict: "to_dictionary (NdArray a) ''0'' = Inr ?d"
    using to_dictionary_filled [OF rng, of "[9, 9]"] a by simp
  have solved: "list_all (\<lambda>(key, value). length value = 1) ?d"
    by (rule all_solved_str_int [OF rng0])
  have pg: "propagate so ?d = Inr (RDict ?d)" by (rule propagate_solved [OF solved])
  have tr: "truthy (RDict ?d) = Inr True"
    using len length_cells by (cases cells; cases "data a") (auto simp: truthy_def)
  have arr: "snd (to_numpy_array ?d) = Inr a"
    using int_values_str_int [OF rng0, of cells] len length_cells a
    by (simp add: to_numpy_array_def reshape99_def)
  have chk: "is_valid_solution a = Inr (sum_list (data a) = 405)"
    by (rule is_valid_solution_sum [OF sh len])
  show ?thesis
    by (simp add: solve.simps valid dict pg tr arr chk)
qed

section \<open>Valid solutions\<close>

lemma unit_ok_mset:
  assumes "unit_ok vs" and "length vs = 9"
  shows "mset vs = mset [1, 2, 3, 4, 5, 6, 7, 8, 9]"
proof -
  let ?D = "mset [1, 2, 3, 4, 5, 6, 7, 8, 9 :: int]"
  have c: "count (mset vs) d = 1" if "d \<in> set [1, 2, 3, 4, 5, 6, 7, 8, 9]" for d
    using assms(1) that unfolding unit_ok_def list_all_iff count_mset by blast
  have "?D \<subseteq># mset vs"
  proof (rule mset_subset_eqI)
    fix x :: int
    show "count ?D x \<le> count (mset vs) x"
    proof (cases "x \<in> set [1, 2, 3, 4, 5, 6, 7, 8, 9]")
      case True
      then have "count ?D x = 1" by auto
      with c [OF True] show ?thesis by simp
    next
      case False
      then have "count ?D x = 0" by auto
      then show ?thesis by simp
    qed
  qed
  then have sub: "?D \<subseteq># mset vs" .
  have sz: "size ?D = size (mset vs)" using assms(2) by simp
  show ?thesis
  proof (rule ccontr)
    assume "mset vs \<noteq> ?D"
    with sub have "?D \<subset># mset vs" by (auto simp: subset_mset.less_le)
    then have "size ?D < size (mset vs)" by (rule mset_subset_size)
    with sz show False by simp
  qed
qed

lemma unit_ok_sum:
  assumes "unit_ok vs" and "length vs = 9"
  shows "sum_list vs = 45"
proof -
  have "sum_list vs = sum_mset (mset vs)" by (simp add: sum_mset_sum_list)
  also have "\<dots> = sum_mset (mset [1, 2, 3, 4, 5, 6, 7, 8, 9])"
    by (simp only: unit_ok_mset [OF assms])
  also have "\<dots> = 45" by simp
  finally show ?thesis .
qed

lemma unit_ok_range:
  assumes "unit_ok vs" and "length vs = 9" and "v \<in> set vs"
  shows "1 \<le> v \<and> v \<le> 9"
proof -
  have "set vs = set_mset (mset [1, 2, 3, 4, 5, 6, 7, 8, 9])"
    by (metis unit_ok_mset [OF assms(1,2)] set_mset_mset)
  with assms(3) show ?thesis by auto
qed

lemma valid_sudoku_solved_grid: "valid_sudoku solved_grid"
  by (simp add: valid_sudoku_def solved_grid_def unit_ok_def row_values_def column_values_def
      box_values_def upt_rec)

lemma valid_sudoku_row:
  assumes "valid_sudoku a" and "i < 9"
  shows "unit_ok (row_values a i)" and "length (row_values a i) = 9"
  using assms by (auto simp: valid_sudoku_def list_all_iff row_values_def)

lemma valid_sudoku_range:
  assumes "valid_sudoku a"
  shows "list_all (\<lambda>v. 1 \<le> v \<and> v \<le> 9) (data a)"
proof -
  have "1 \<le> data a ! k \<and> data a ! k \<le> 9" if "k < 81" for k
  proof -
    from that have i: "k div 9 < 9" and j: "k mod 9 < 9" by simp_all
    have "data a ! (k div 9 * 9 + k mod 9) \<in> set (row_values a (k div 9))"
      unfolding row_values_def set_map set_upt using j by (intro imageI) simp
    then have "data a ! k \<in> set (row_values a (k div 9))" by simp
    then show ?thesis
      using unit_ok_range [OF valid_sudoku_row [OF assms i]] by blast
  qed
  moreover have "length (data a) = 81" using assms by (simp add: valid_sudoku_def)
  ultimately show ?thesis by (auto simp: list_all_iff in_set_conv_nth)
qed

lemma valid_sudoku_sum:
  assumes "valid_sudoku a"
  shows "sum_list (data a) = 405"
proof -
  have len: "length (data a) = 81" using assms by (simp add: valid_sudoku_def)
  have row: "(\<Sum>j = 0..<9. data a ! (i * 9 + j)) = 45" if "i < 9" for i
  proof -
    have "(\<Sum>j = 0..<9. data a ! (i * 9 + j)) = sum_list (row_values a i)"
      by (simp add: row_values_def interv_sum_list_conv_sum_set_nat)
    then show ?thesis using unit_ok_sum [OF valid_sudoku_row [OF assms that]] by simp
  qed
  have "sum_list (data a) = (\<Sum>k = 0..<9 * 9. data a ! k)"
    using len by (simp add: sum_list_sum_nth)
  also have "\<dots> = (\<Sum>j = 0..<9. \<Sum>i = 0..<9. data a ! (i * 9 + j))"
    by (rule sum_grid [symmetric])
  also have "\<dots> = (\<Sum>i = 0..<9. \<Sum>j = 0..<9. data a ! (i * 9 + j))"
    by (rule sum.swap)
  also have "\<dots> = (\<Sum>i = 0..<9::nat. 45)" using row by simp
  also have "\<dots> = 405" by simp
  finally show ?thesis .
qed

text \<open>
  Claim C8.  A grid that is already a valid solution (81 cells, every row, column and box
  holding each digit once) is returned by \<open>solve\<close> as it is, whatever the iteration order
  of sets, and the elimination loop changes nothing: its single pass over the decoded
  state returns the state itself.
\<close>

theorem solve_solved_grid_unchanged:
  assumes "valid_sudoku a"
  shows "solve so (NdArray a) = Inr a \<and>
         (\<exists>d. to_dictionary (NdArray a) ''0'' = Inr d \<and>
              pass so (map fst d) d = Inr d \<and> fixpoint so d = Inr (Some d))"
proof -
  have sh: "shape a = [9, 9]" and len: "length (data a) = 81"
    using assms by (simp_all add: valid_sudoku_def)
  have rng: "list_all (\<lambda>v. 1 \<le> v \<and> v \<le> 9) (data a)" by (rule valid_sudoku_range [OF assms])
  then have rng0: "list_all (\<lambda>v. 0 \<le> v \<and> v \<le> 9) (data a)" by (auto simp: list_all_iff)
  let ?d = "zip cells (map str_int (data a))"
  have "a = \<lparr>shape = [9, 9], data = data a\<rparr>" using sh by simp
  then have dict: "to_dictionary (NdArray a) ''0'' = Inr ?d"
    using to_dictionary_filled [OF rng, of "[9, 9]"] by simp
  have solved: "list_all (\<lambda>(key, value). length value = 1) ?d"
    by (rule all_solved_str_int [OF rng0])
  have "solve so (NdArray a) = Inr a"
    using solve_filled [OF sh len rng, of so] valid_sudoku_sum [OF assms] by simp
  moreover have "pass so (map fst ?d) ?d = Inr ?d" by (rule pass_solved [OF solved]) simp
  moreover have "fixpoint so ?d = Inr (Some ?d)" by (rule fixpoint_solved [OF solved])
  ultimately show ?thesis using dict by blast
qed

theorem solve_solved_grid_unchanged_witness:
  "valid_sudoku solved_grid \<and> solve id (NdArray solved_grid) = Inr solved_grid \<and>
   (\<exists>d. to_dictionary (NdArray solved_grid) ''0'' = Inr d \<and>
        pass id (map fst d) d = Inr d \<and> fixpoint id d = Inr (Some d))"
  using solve_solved_grid_unchanged [OF valid_sudoku_solved_grid, of id]
    valid_sudoku_solved_grid by simp

section \<open>The checks of solve\<close>

lemma fives_grid_not_valid: "\<not> valid_sudoku fives_grid"
proof
  assume "valid_sudoku fives_grid"
  then have "unit_ok (row_values fives_grid 0)" by (rule valid_sudoku_row) simp
  then have "count_list (row_values fives_grid 0) 1 = 1" by (simp add: unit_ok_def)
  moreover have "1 \<notin> set (row_values fives_grid 0)"
    by (auto simp: row_values_def fives_grid_def)
  ultimately show False by (simp add: count_list_0_iff)
qed

lemma fives_grid_filled:
  "shape fives_grid = [9, 9]" "length (data fives_grid) = 81"
  "list_all (\<lambda>v. 1 \<le> v \<and> v \<le> 9) (data fives_grid)" "sum_list (data fives_grid) = 405"
  by (simp_all add: fives_grid_def list_all_iff sum_list_replicate)

text \<open>
  Claim C4.  Every grid other than the sentinel that \<open>solve\<close> returns should hold each
  digit once in every row, column and box.  The propagator never compares two given
  clues with each other and the only check of the result is the sum 405: the grid of 81
  fives is returned as its own solution.
\<close>

theorem solve_fives_grid:
  "solve so (NdArray fives_grid) = Inr fives_grid \<and> fives_grid \<noteq> no_solution \<and>
   \<not> valid_sudoku fives_grid"
proof -
  have "solve so (NdArray fives_grid) = Inr fives_grid"
    using solve_filled [OF fives_grid_filled(1,2,3), of so] fives_grid_filled(4) by simp
  moreover have "fives_grid \<noteq> no_solution"
    by (simp add: fives_grid_def no_solution_def)
  ultimately show ?thesis using fives_grid_not_valid by simp
qed

lemma wf_99: "wf_ndarray a \<Longrightarrow> shape a = [9, 9] \<Longrightarrow> length (data a) = 81"
  by (simp add: wf_ndarray_def)



text \<open>
  Claim C5.  An array whose shape is not 9 by 9, or which has an entry below 0 or above
  9, is rejected by \<open>is_valid_puzzle\<close>, and \<open>solve\<close> returns the grid of 81 entries -1.
  This is the first branch of \<open>solve\<close>: the array is neither decoded nor propagated.
\<close>

theorem solve_rejects_malformed:
  assumes "wf_ndarray a"
    and "shape a \<noteq> [9, 9] \<or> (\<exists>v\<in>set (data a). v < 0 \<or> 9 < v)"
  shows "is_valid_puzzle (NdArray a) = Inr False \<and> solve so (NdArray a) = Inr no_solution \<and>
         no_solution = \<lparr>shape = [9, 9], data = replicate 81 (- 1)\<rparr>"
proof -
  have "is_valid_puzzle (NdArray a) = Inr False"
  proof (cases "shape a = [9, 9]")
    case False
    then show ?thesis by (simp add: is_valid_puzzle_def)
  next
    case True
    with assms(1) have len: "length (data a) = 81" by (rule wf_99)
    from True assms(2) obtain v where "v \<in> set (data a)" and v: "v < 0 \<or> 9 < v" by blast
    then obtain k where k: "k < 81" and dk: "data a ! k = v"
      using len by (auto simp: in_set_conv_nth)
    from k have i: "k div 9 \<in> set [0..<9]" and j: "k mod 9 \<in> set [0..<9]" by simp_all
    have "data a ! (k div 9 * 9 + k mod 9) = v" using dk by simp
    with v have bad: "data a ! (k div 9 * 9 + k mod 9) < 0 \<or> data a ! (k div 9 * 9 + k mod 9) > 9"
      by simp
    have "\<not> list_all (\<lambda>i. list_all (\<lambda>j.
              \<not> (data a ! (i * 9 + j) < 0 \<or> data a ! (i * 9 + j) > 9)) [0..<9]) [0..<9]"
      unfolding list_all_iff using i j bad by blast
    with True show ?thesis by (simp add: is_valid_puzzle_def)
  qed
  then show ?thesis by (simp add: solve.simps no_solution_def)
qed

theorem solve_rejects_malformed_witness:
  "solve id (NdArray \<lparr>shape = [9, 9], data = 10 # replicate 80 0\<rparr>) = Inr no_solution \<and>
   solve id (NdArray \<lparr>shape = [3, 3], data = [1, 2, 3, 4, 5, 6, 7, 8, 9]\<rparr>) = Inr no_solution"
  using solve_rejects_malformed [of "\<lparr>shape = [9, 9], data = 10 # replicate 80 0\<rparr>" id]
    solve_rejects_malformed [of "\<lparr>shape = [3, 3], data = [1, 2, 3, 4, 5, 6, 7, 8, 9]\<rparr>" id]
  by (simp add: wf_ndarray_def)

section \<open>The effect of to_numpy_array on its argument\<close>

lemma py_int_digits:
  assumes "v \<noteq> []" and "list_all is_digit v"
  shows "py_int v = Inr (decimal v)"
proof -
  from assms(1) obtain c cs where v: "v = c # cs" by (cases v) auto
  with assms(2) have "is_digit c" by simp
  then have "c \<noteq> CHR ''-''" and "c \<noteq> CHR ''+''" by (auto simp: is_digit_def)
  with v assms(2) show ?thesis by (simp add: py_int_def)
qed

lemma int_values_digits:
  assumes "list_all (\<lambda>(k, v). v \<noteq> [] \<and> list_all is_digit v) d"
  shows "int_values d = (map (\<lambda>(k, v). (k, IVal (decimal v))) d, Inr (map (\<lambda>(k, v). decimal v) d))"
  using assms
proof (induction d)
  case Nil
  then show ?case by simp
next
  case (Cons p d)
  obtain k v where p: "p = (k, v)" by (cases p)
  with Cons.prems have "py_int v = Inr (decimal v)" by (simp add: py_int_digits)
  with Cons p show ?case by simp
qed

text \<open>
  Claim C10.  \<open>to_numpy_array\<close> rewrites the dictionary it is given: when the values are
  numerals, the dictionary after the call holds the integer of every value in place of
  the string, the returned array is built from these integers, and a non-empty dictionary
  is not what it was before the call.
\<close>

theorem to_numpy_array_rewrites_dictionary:
  assumes "list_all (\<lambda>(k, v). v \<noteq> [] \<and> list_all is_digit v) dictionary"
  shows "to_numpy_array dictionary =
           (map (\<lambda>(k, v). (k, IVal (decimal v))) dictionary,
            reshape99 (map (\<lambda>(k, v). decimal v) dictionary)) \<and>
         (dictionary \<noteq> [] \<longrightarrow>
            fst (to_numpy_array dictionary) \<noteq> map (\<lambda>(k, v). (k, SVal v)) dictionary)"
proof -
  have eq: "to_numpy_array dictionary =
           (map (\<lambda>(k, v). (k, IVal (decimal v))) dictionary,
            reshape99 (map (\<lambda>(k, v). decimal v) dictionary))"
    by (simp add: to_numpy_array_def int_values_digits [OF assms])
  moreover have "map (\<lambda>(k, v). (k, IVal (decimal v))) dictionary
      \<noteq> map (\<lambda>(k, v). (k, SVal v)) dictionary" if "dictionary \<noteq> []"
    using that by (cases dictionary) auto
  ultimately show ?thesis by simp
qed

theorem to_numpy_array_rewrites_dictionary_witness:
  "to_numpy_array (map (\<lambda>c. (c, ''5'')) cells) =
     (map (\<lambda>c. (c, IVal 5)) cells, Inr fives_grid)"
proof -
  have h: "list_all (\<lambda>(k, v). v \<noteq> [] \<and> list_all is_digit v) (map (\<lambda>c. (c, ''5'')) cells)"
    by (simp add: list_all_iff is_digit_def)
  have "decimal ''5'' = 5" by (simp add: decimal_def digit_val_def)
  moreover have "map (\<lambda>x. 5 :: int) cells = replicate 81 5"
    by (simp add: map_replicate_const length_cells)
  ultimately show ?thesis
    using to_numpy_array_rewrites_dictionary [OF h]
    by (simp add: o_def reshape99_def length_cells fives_grid_def)
qed

section \<open>The cell selected by the guess step\<close>

lemma sorted_cells: "sorted_wrt (<) cells"
proof -
  have "successively (<) cells"
    by (simp add: cells_def cross_def digits_def less_char_def)
  then show ?thesis by (simp add: successively_conv_sorted_wrt)
qed

lemma sorted_takeWhile_position:
  fixes xs :: "'a::linorder list"
  assumes "sorted_wrt (<) xs" and "a \<in> set xs" and "b \<in> set xs"
  shows "a \<le> b \<longleftrightarrow> length (takeWhile (\<lambda>k. k \<noteq> a) xs) \<le> length (takeWhile (\<lambda>k. k \<noteq> b) xs)"
  using assms by (induction xs) (auto simp: not_le)

lemma position_mono:
  assumes "a \<in> set cells" and "b \<in> set cells"
  shows "a \<le> b \<longleftrightarrow> position a \<le> position b"
  unfolding position_def by (rule sorted_takeWhile_position [OF sorted_cells assms])

lemma unsolved_list_set:
  "set [(length value, key). (key, value) \<leftarrow> sudoku, length value > 1]
     = {(length v, k) | k v. (k, v) \<in> set sudoku \<and> 1 < length v}"
  by (induction sudoku) auto

lemma min_unsolved_none:
  assumes "\<not> (\<exists>(k, v)\<in>set sudoku. 1 < length v)"
  shows "min_unsolved sudoku = Inl ValueError"
proof -
  from assms have "set [(length value, key). (key, value) \<leftarrow> sudoku, length value > 1] = {}"
    unfolding unsolved_list_set by auto
  then have e: "[(length value, key). (key, value) \<leftarrow> sudoku, length value > 1] = []"
    by (simp only: set_empty)
  show ?thesis unfolding min_unsolved_def e by simp
qed

lemma min_unsolved_least:
  assumes "distinct (map fst sudoku)" and "(k0, v0) \<in> set sudoku" and "1 < length v0"
  shows "\<exists>key value. min_unsolved sudoku = Inr (length value, key) \<and>
           (key, value) \<in> set sudoku \<and> getitem sudoku key = Inr value \<and> 1 < length value \<and>
           (\<forall>(k, v)\<in>set sudoku. 1 < length v \<longrightarrow> (length value, key) \<le> (length v, k))"
proof -
  let ?xs = "[(length value, key). (key, value) \<leftarrow> sudoku, length value > 1]"
  from assms(2,3) have mem: "(length v0, k0) \<in> set ?xs" unfolding unsolved_list_set by blast
  have ne: "?xs \<noteq> []"
  proof
    assume "?xs = []"
    then have "set ?xs = {}" by (simp only: set_empty)
    with mem show False by (simp only: empty_iff)
  qed
  then obtain x xs' where "?xs = x # xs'" by (cases ?xs) blast+
  then have "min_unsolved sudoku = Inr (min_list (x # xs'))"
    unfolding min_unsolved_def by (simp only: list.case)
  with \<open>?xs = x # xs'\<close> have m: "min_unsolved sudoku = Inr (min_list ?xs)" by (simp only:)
  have Min: "min_list ?xs = Min (set ?xs)" by (rule min_list_Min [OF ne])
  from ne have nes: "set ?xs \<noteq> {}" by (simp only: set_empty not_False_eq_True)
  have "Min (set ?xs) \<in> set ?xs" by (rule Min_in [OF finite_set nes])
  with Min have "min_list ?xs \<in> set ?xs" by (simp only:)
  then obtain key "value" where mk: "min_list ?xs = (length value, key)"
    and kv: "(key, value) \<in> set sudoku" and l: "1 < length value"
    unfolding unsolved_list_set by blast
  from assms(1) kv have "map_of sudoku key = Some value" by simp
  then have g: "getitem sudoku key = Inr value" by (simp add: getitem_def)
  have least: "(length value, key) \<le> (length v, k)"
    if "(k, v) \<in> set sudoku" and "1 < length v" for k v
  proof -
    from that have "(length v, k) \<in> set ?xs" unfolding unsolved_list_set by blast
    then have "Min (set ?xs) \<le> (length v, k)" by (rule Min_le [OF finite_set])
    with Min mk show ?thesis by (simp only:)
  qed
  show ?thesis
  proof (intro exI conjI)
    show "min_unsolved sudoku = Inr (length value, key)" using m mk by (simp only:)
    show "(key, value) \<in> set sudoku" by (rule kv)
    show "getitem sudoku key = Inr value" by (rule g)
    show "1 < length value" by (rule l)
    show "\<forall>(k, v)\<in>set sudoku. 1 < length v \<longrightarrow> (length value, key) \<le> (length v, k)"
      using least by blast
  qed
qed

text \<open>
  Claim C9.  In a state over the 81 cells, if some cell has more than one candidate, the
  cell that the guess step selects has more than one candidate, no cell with more than
  one candidate has fewer, and among those with as many it comes first in row-major
  order (the order of \<open>cells\<close>); \<open>sudoku[min_key]\<close> is its candidate string.  The
  selection is a function of the state.  If no cell has more than one candidate, \<open>min\<close>
  raises \<open>ValueError\<close>.
\<close>

theorem min_unsolved_selects:
  assumes "map fst sudoku = cells"
  shows "if \<exists>(k, v)\<in>set sudoku. 1 < length v
         then \<exists>n key value. min_unsolved sudoku = Inr (n, key) \<and> getitem sudoku key = Inr value \<and>
                length value = n \<and> 1 < n \<and>
                (\<forall>(k, v)\<in>set sudoku. 1 < length v \<longrightarrow>
                   n < length v \<or> (n = length v \<and> position key \<le> position k))
         else min_unsolved sudoku = Inl ValueError"
proof (cases "\<exists>(k, v)\<in>set sudoku. 1 < length v")
  case False
  then show ?thesis using min_unsolved_none [of sudoku] by simp
next
  case True
  then obtain k0 v0 where "(k0, v0) \<in> set sudoku" and "1 < length v0" by auto
  moreover have "distinct (map fst sudoku)" using assms distinct_cells by simp
  ultimately obtain key "value" where m: "min_unsolved sudoku = Inr (length value, key)"
    and kv: "(key, value) \<in> set sudoku" and g: "getitem sudoku key = Inr value"
    and l: "1 < length value"
    and least: "\<forall>(k, v)\<in>set sudoku. 1 < length v \<longrightarrow> (length value, key) \<le> (length v, k)"
    using min_unsolved_least [of sudoku k0 v0] by blast
  have key: "key \<in> set cells" using kv assms by (metis fst_conv image_eqI set_map)
  have "length value < length v \<or> (length value = length v \<and> position key \<le> position k)"
    if "(k, v) \<in> set sudoku" and "1 < length v" for k v
  proof -
    from least that have "(length value, key) \<le> (length v, k)" by blast
    then have "length value < length v \<or> (length value = length v \<and> key \<le> k)"
      by (auto simp: less_eq_prod_def)
    moreover have "k \<in> set cells" using that(1) assms by (metis fst_conv image_eqI set_map)
    ultimately show ?thesis using position_mono [OF key] by blast
  qed
  then have "\<forall>(k, v)\<in>set sudoku. 1 < length v \<longrightarrow>
       length value < length v \<or> (length value = length v \<and> position key \<le> position k)"
    by blast
  with m g l have "\<exists>n key value. min_unsolved sudoku = Inr (n, key) \<and>
      getitem sudoku key = Inr value \<and> length value = n \<and> 1 < n \<and>
      (\<forall>(k, v)\<in>set sudoku. 1 < length v \<longrightarrow>
         n < length v \<or> (n = length v \<and> position key \<le> position k))"
    by blast
  then show ?thesis unfolding if_P [OF True] .
qed

lemma zero_state_keys: "map fst zero_state = cells"
  by (simp add: zero_state_def o_def)

lemma zero_state_unsolved: "\<exists>(k, v)\<in>set zero_state. 1 < length v"
proof -
  have "(''11'', digits) \<in> set zero_state"
    by (simp add: zero_state_def cells_def cross_def digits_def)
  moreover have "1 < length digits" by (simp add: digits_def)
  ultimately show ?thesis by blast
qed

theorem min_unsolved_selects_witness:
  "map fst zero_state = cells \<and>
   (\<exists>n key value. min_unsolved zero_state = Inr (n, key) \<and>
      getitem zero_state key = Inr value \<and> length value = n \<and> 1 < n \<and>
      (\<forall>(k, v)\<in>set zero_state. 1 < length v \<longrightarrow>
         n < length v \<or> (n = length v \<and> position key \<le> position k)))"
  using min_unsolved_selects [OF zero_state_keys] zero_state_keys
  unfolding if_P [OF zero_state_unsolved] by (rule conjI [rotated])

section \<open>The neighbour table\<close>

lemma set_cross: "set (cross A B) = {[a, b] | a b. a \<in> set A \<and> b \<in> set B}"
  by (auto simp: cross_def)

lemma in_cross: "[a, b] \<in> set (cross A B) \<longleftrightarrow> a \<in> set A \<and> b \<in> set B"
  by (auto simp: cross_def)

lemma in_cells: "c \<in> set cells \<longleftrightarrow> (\<exists>x y. c = [x, y] \<and> x \<in> set digits \<and> y \<in> set digits)"
  by (auto simp: cells_def set_cross)

lemma bex_rows: "(\<exists>p\<in>set rows. P p) \<longleftrightarrow> (\<exists>r\<in>set digits. P (cross [r] digits))"
  by (auto simp: rows_def)

lemma bex_columns: "(\<exists>p\<in>set columns. P p) \<longleftrightarrow> (\<exists>c\<in>set digits. P (cross digits [c]))"
  by (auto simp: columns_def)

lemma bex_subgrids:
  "(\<exists>p\<in>set subgrids. P p) \<longleftrightarrow>
     (\<exists>R\<in>set [''123'', ''456'', ''789'']. \<exists>C\<in>set [''123'', ''456'', ''789'']. P (cross R C))"
  by (simp add: subgrids_def)

lemma band_digits: "R \<in> set [''123'', ''456'', ''789''] \<Longrightarrow> x \<in> set R \<Longrightarrow> x \<in> set digits"
  by (auto simp: digits_def)

lemma same_unit:
  "(\<exists>p\<in>set (rows @ columns @ subgrids). [x, y] \<in> set p \<and> [a, b] \<in> set p) \<longleftrightarrow>
     (x \<in> set digits \<and> y \<in> set digits \<and> a \<in> set digits \<and> b \<in> set digits \<and> (a = x \<or> b = y)) \<or>
     (\<exists>R\<in>set [''123'', ''456'', ''789'']. \<exists>C\<in>set [''123'', ''456'', ''789''].
         x \<in> set R \<and> a \<in> set R \<and> y \<in> set C \<and> b \<in> set C)"
  (is "?L \<longleftrightarrow> ?R1 \<or> ?R2")
proof -
  have "?L \<longleftrightarrow> (\<exists>p\<in>set rows. [x, y] \<in> set p \<and> [a, b] \<in> set p) \<or>
      (\<exists>p\<in>set columns. [x, y] \<in> set p \<and> [a, b] \<in> set p) \<or>
      (\<exists>p\<in>set subgrids. [x, y] \<in> set p \<and> [a, b] \<in> set p)"
    by auto
  moreover have "(\<exists>p\<in>set rows. [x, y] \<in> set p \<and> [a, b] \<in> set p) \<longleftrightarrow>
      x \<in> set digits \<and> y \<in> set digits \<and> b \<in> set digits \<and> a = x"
    unfolding bex_rows in_cross by auto
  moreover have "(\<exists>p\<in>set columns. [x, y] \<in> set p \<and> [a, b] \<in> set p) \<longleftrightarrow>
      x \<in> set digits \<and> y \<in> set digits \<and> a \<in> set digits \<and> b = y"
    unfolding bex_columns in_cross by auto
  moreover have "(\<exists>p\<in>set subgrids. [x, y] \<in> set p \<and> [a, b] \<in> set p) \<longleftrightarrow> ?R2"
    unfolding bex_subgrids in_cross by blast
  ultimately show ?thesis by blast
qed

lemma unit_cells:
  assumes "p \<in> set (rows @ columns @ subgrids)" and "k \<in> set p"
  shows "k \<in> set cells"
proof -
  from assms have "\<exists>p\<in>set rows \<union> set columns \<union> set subgrids. k \<in> set p" by auto
  then have "(\<exists>p\<in>set rows. k \<in> set p) \<or> (\<exists>p\<in>set columns. k \<in> set p) \<or>
    (\<exists>p\<in>set subgrids. k \<in> set p)" by blast
  then show ?thesis
    unfolding bex_rows bex_columns bex_subgrids in_cells set_cross
    using band_digits by fastforce
qed


lemma digit_row_inj:
  assumes "a \<in> set digits" and "x \<in> set digits"
  shows "nat (digit_val a - 1) = nat (digit_val x - 1) \<longleftrightarrow> a = x"
proof -
  have "list_all (\<lambda>a. list_all (\<lambda>x.
          (nat (digit_val a - 1) = nat (digit_val x - 1)) = (a = x)) digits) digits"
    by code_simp
  with assms show ?thesis unfolding list_all_iff by blast
qed

lemma same_band:
  assumes "a \<in> set digits" and "x \<in> set digits"
  shows "(\<exists>R\<in>set [''123'', ''456'', ''789'']. x \<in> set R \<and> a \<in> set R) \<longleftrightarrow>
         nat (digit_val a - 1) div 3 = nat (digit_val x - 1) div 3"
proof -
  have "list_all (\<lambda>a. list_all (\<lambda>x.
          list_ex (\<lambda>R. x \<in> set R \<and> a \<in> set R) [''123'', ''456'', ''789''] =
          (nat (digit_val a - 1) div 3 = nat (digit_val x - 1) div 3)) digits) digits"
    by code_simp
  with assms show ?thesis unfolding list_all_iff list_ex_iff by blast
qed

lemma neighbours_length:
  "list_all (\<lambda>c. case neighbours c of None \<Rightarrow> False | Some ns \<Rightarrow> length ns = 20) cells"
  by code_simp


lemma share_unit_iff:
  assumes "c \<in> set cells" and "k \<in> set cells"
  shows "(\<exists>p\<in>set (rows @ columns @ subgrids). c \<in> set p \<and> k \<in> set p) \<longleftrightarrow>
         row_of k = row_of c \<or> column_of k = column_of c \<or> box_of k = box_of c"
proof -
  from assms(1) obtain x y where c: "c = [x, y]" and x: "x \<in> set digits" and y: "y \<in> set digits"
    unfolding in_cells by blast
  from assms(2) obtain a b where k: "k = [a, b]" and a: "a \<in> set digits" and b: "b \<in> set digits"
    unfolding in_cells by blast
  have "(\<exists>R\<in>set [''123'', ''456'', ''789'']. \<exists>C\<in>set [''123'', ''456'', ''789''].
           x \<in> set R \<and> a \<in> set R \<and> y \<in> set C \<and> b \<in> set C) \<longleftrightarrow>
        (\<exists>R\<in>set [''123'', ''456'', ''789'']. x \<in> set R \<and> a \<in> set R) \<and>
        (\<exists>C\<in>set [''123'', ''456'', ''789'']. y \<in> set C \<and> b \<in> set C)"
    by blast
  then have "(\<exists>p\<in>set (rows @ columns @ subgrids). [x, y] \<in> set p \<and> [a, b] \<in> set p) \<longleftrightarrow>
      a = x \<or> b = y \<or>
      (nat (digit_val a - 1) div 3 = nat (digit_val x - 1) div 3 \<and>
       nat (digit_val b - 1) div 3 = nat (digit_val y - 1) div 3)"
    unfolding same_unit same_band [OF a x] same_band [OF b y] using a b x y by blast
  then show ?thesis
    unfolding c k by (simp add: box_of_def digit_row_inj [OF a x] digit_row_inj [OF b y])
qed

lemma neighbours_set:
  assumes "c \<in> set cells"
  shows "\<exists>ns. neighbours c = Some ns \<and> distinct ns \<and> set ns = {k \<in> set cells. is_neighbour c k}"
proof -
  let ?ns = "removeAll c (remdups (concat (permutations c)))"
  have n: "neighbours c = Some ?ns" using assms by (simp add: neighbours_def)
  have d: "distinct ?ns" by (simp add: distinct_removeAll)
  have "k \<in> set ?ns \<longleftrightarrow> k \<in> set cells \<and> is_neighbour c k" for k
  proof -
    have "k \<in> set ?ns \<longleftrightarrow>
        k \<noteq> c \<and> (\<exists>p\<in>set (rows @ columns @ subgrids). c \<in> set p \<and> k \<in> set p)"
      by (auto simp: permutations_def)
    also have "\<dots> \<longleftrightarrow> k \<in> set cells \<and> k \<noteq> c \<and>
        (\<exists>p\<in>set (rows @ columns @ subgrids). c \<in> set p \<and> k \<in> set p)"
      using unit_cells by blast
    also have "\<dots> \<longleftrightarrow> k \<in> set cells \<and> is_neighbour c k"
      unfolding is_neighbour_def using share_unit_iff [OF assms] by blast
    finally show ?thesis .
  qed
  then have "set ?ns = {k \<in> set cells. is_neighbour c k}" by blast
  with n d show ?thesis by blast
qed

lemma neighbours_cells: "neighbours c = Some ns \<Longrightarrow> set ns \<subseteq> set cells"
proof -
  assume a: "neighbours c = Some ns"
  then have "c \<in> set cells" by (auto simp: neighbours_def split: if_splits)
  from neighbours_set [OF this] a show ?thesis by auto
qed

lemma position_row_column:
  assumes "c \<in> set cells"
  shows "position c = 9 * row_of c + column_of c"
proof -
  have "list_all (\<lambda>c. position c = 9 * row_of c + column_of c) cells" by code_simp
  with assms show ?thesis unfolding list_all_iff by blast
qed

text \<open>
  Claim C7.  There are 81 distinct cells, and the table built by the constructor gives
  every one of them a set of exactly 20 cells: the cells other than itself that are in
  its row, in its column or in its box.  (\<open>position_row_column\<close> above: row and column
  of a cell name are those of its row-major position.)
\<close>

theorem neighbours_table:
  "length cells = 81 \<and> distinct cells \<and>
   (\<forall>c\<in>set cells. \<exists>ns. neighbours c = Some ns \<and> distinct ns \<and> length ns = 20 \<and>
        set ns = {k \<in> set cells. is_neighbour c k})"
proof -
  have "\<exists>ns. neighbours c = Some ns \<and> distinct ns \<and> length ns = 20 \<and>
        set ns = {k \<in> set cells. is_neighbour c k}" if "c \<in> set cells" for c
  proof -
    from neighbours_set [OF that] obtain ns where ns: "neighbours c = Some ns" "distinct ns"
      "set ns = {k \<in> set cells. is_neighbour c k}" by blast
    from neighbours_length that ns(1) have "length ns = 20"
      unfolding list_all_iff by fastforce
    with ns show ?thesis by blast
  qed
  then show ?thesis using length_cells distinct_cells by blast
qed

theorem neighbours_table_witness:
  "''55'' \<in> set cells \<and>
   (\<exists>ns. neighbours ''55'' = Some ns \<and> distinct ns \<and> length ns = 20 \<and>
        set ns = {k \<in> set cells. is_neighbour ''55'' k})"
proof -
  have h: "''55'' \<in> set cells" by (simp add: cells_def cross_def digits_def)
  with neighbours_table show ?thesis by blast
qed

section \<open>Stalled states\<close>

lemma to_dictionary_conflict_grid: "to_dictionary (NdArray conflict_grid) ''0'' = Inr conflict_state"
  by code_simp

lemma conflict_state_first: "getitem conflict_state ''11'' = Inr ''123456789''"
  by code_simp

lemma conflict_state_first_taken: "case neighbours ''11'' of None \<Rightarrow> False
     | Some ns \<Rightarrow> (case solved_values conflict_state ns of Inl e \<Rightarrow> False
         | Inr sv \<Rightarrow> filter (\<lambda>ch. [ch] \<notin> set sv) (remdups ''123456789'') = [])"
  by code_simp

lemma conflict_state_rest_solved: "list_all (\<lambda>k. case map_of (AList.update ''11'' [] conflict_state) k of
       None \<Rightarrow> False | Some v \<Rightarrow> length v = 1) (tl cells)"
  by code_simp

lemma conflict_state_keys: "map fst conflict_state = cells"
  by code_simp

lemma conflict_state_counts: "solved_count conflict_state = 80" "solved_count (AList.update ''11'' [] conflict_state) = 80"
  "empty_count (AList.update ''11'' [] conflict_state) = 1"
  by code_simp+

lemma min_unsolved_conflict_state: "min_unsolved (AList.update ''11'' [] conflict_state) = Inl ValueError"
  by code_simp

lemma to_dictionary_zero_grid: "to_dictionary (NdArray zero_grid) ''0'' = Inr zero_state"
  by code_simp

lemma is_valid_puzzle_examples: "is_valid_puzzle (NdArray zero_grid) = Inr True" "is_valid_puzzle (NdArray conflict_grid) = Inr True"
  by code_simp+


lemma set_order_props:
  assumes "set_order so"
  shows "so [] = []" and "length (so xs) = length xs" and "distinct (so xs) = distinct xs"
proof -
  have m: "mset (so ys) = mset ys" for ys using assms by (simp add: set_order_def)
  from m [of "[]"] show "so [] = []" by simp
  from m [of xs] show "length (so xs) = length xs" by (rule mset_eq_length)
  from m [of xs] show "distinct (so xs) = distinct xs" by (rule mset_eq_imp_distinct_iff)
qed

lemma pass_solved_keys:
  assumes "list_all (\<lambda>k. case map_of s k of None \<Rightarrow> False | Some v \<Rightarrow> length v = 1) ks"
  shows "pass so ks s = Inr s"
  using assms
  by (induction ks) (auto simp: eliminate_def getitem_def split: option.splits)

lemma guess_nonempty: "value \<noteq> [] \<Longrightarrow> guess so s key value = Inl AttributeError"
  by (cases "value") (simp_all add: guess.simps solve_Dict)

lemma propagate_stalled:
  assumes f: "fixpoint so s = Inr (Some s')" and d: "distinct (map fst s')"
    and kv: "(k0, v0) \<in> set s'" and l: "1 < length v0"
  shows "propagate so s = Inl AttributeError"
proof -
  from kv l have ns: "\<not> list_all (\<lambda>(key, value). length value = 1) s'"
    by (fastforce simp: list_all_iff)
  from min_unsolved_least [OF d kv l] obtain key "value"
    where m: "min_unsolved s' = Inr (length value, key)"
      and g: "getitem s' key = Inr value" and "1 < length value" by blast
  then have "value \<noteq> []" by auto
  then have "guess so s' key value = Inl AttributeError" by (rule guess_nonempty)
  with f ns m g show ?thesis by (simp add: propagate.simps)
qed

lemma solved_values_none:
  assumes "\<forall>(k, v)\<in>set s. length v \<noteq> 1" and "set ks \<subseteq> set (map fst s)"
  shows "solved_values s ks = Inr []"
  using assms(2)
proof (induction ks)
  case Nil
  then show ?case by simp
next
  case (Cons k ks)
  then have "k \<in> set (map fst s)" by simp
  then obtain v where v: "map_of s k = Some v"
    by (metis map_of_eq_None_iff not_Some_eq set_map)
  then have "(k, v) \<in> set s" by (rule map_of_SomeD)
  with assms(1) have "length v \<noteq> 1" by blast
  with v Cons show ?case by (simp add: getitem_def)
qed

lemma set_update_subset: "set (AList.update k v s) \<subseteq> insert (k, v) (set s)"
  by (induction s) auto

lemma eliminate_unsolved:
  assumes so: "set_order so" and inv: "\<forall>(k, v)\<in>set s. distinct v \<and> 1 < length v"
    and keys: "map fst s = cells" and key: "key \<in> set cells"
  shows "\<exists>s'. eliminate so s key = Inr s' \<and> map fst s' = cells \<and>
           (\<forall>(k, v)\<in>set s'. distinct v \<and> 1 < length v)"
proof -
  from key keys have "key \<in> set (map fst s)" by simp
  then obtain v where v: "map_of s key = Some v"
    by (metis map_of_eq_None_iff not_Some_eq set_map)
  then have "(key, v) \<in> set s" by (rule map_of_SomeD)
  with inv have dv: "distinct v" and lv: "1 < length v" by auto
  from key obtain ns where ns: "neighbours key = Some ns" by (auto simp: neighbours_def)
  then have "set ns \<subseteq> set (map fst s)" using neighbours_cells keys by simp
  moreover from inv have "\<forall>(k, v)\<in>set s. length v \<noteq> 1" by auto
  ultimately have sv: "solved_values s ns = Inr []" by (rule solved_values_none [rotated])
  let ?s' = "AList.update key (so v) s"
  have e: "eliminate so s key = Inr ?s'"
    using v lv ns sv dv by (simp add: eliminate_def getitem_def distinct_remdups_id)
  have k': "map fst ?s' = cells" using update_existing_keys [OF v] keys by simp
  have "distinct (so v) \<and> 1 < length (so v)"
    using set_order_props(2,3) [OF so, of v] dv lv by simp
  with inv have "\<forall>(k, v)\<in>set ?s'. distinct v \<and> 1 < length v"
    using set_update_subset [of key "so v" s] by blast
  with e k' show ?thesis by blast
qed

lemma pass_unsolved:
  assumes so: "set_order so" and "\<forall>(k, v)\<in>set s. distinct v \<and> 1 < length v"
    and "map fst s = cells" and "set ks \<subseteq> set cells"
  shows "\<exists>s'. pass so ks s = Inr s' \<and> map fst s' = cells \<and>
           (\<forall>(k, v)\<in>set s'. distinct v \<and> 1 < length v)"
  using assms(2-)
proof (induction ks arbitrary: s)
  case Nil
  then show ?case by simp
next
  case (Cons key ks)
  from Cons.prems have "key \<in> set cells" by simp
  from eliminate_unsolved [OF so Cons.prems(1,2) this] obtain s1
    where e: "eliminate so s key = Inr s1" and k1: "map fst s1 = cells"
      and i1: "\<forall>(k, v)\<in>set s1. distinct v \<and> 1 < length v" by blast
  from Cons.prems have "set ks \<subseteq> set cells" by simp
  from Cons.IH [OF i1 k1 this] e show ?case by simp
qed

lemma solved_count_unsolved: "\<forall>(k, v)\<in>set s. 1 < length v \<Longrightarrow> solved_count s = 0"
  by (auto simp: solved_count_def filter_empty_conv)

lemma propagate_unsolved:
  assumes so: "set_order so" and inv: "\<forall>(k, v)\<in>set s. distinct v \<and> 1 < length v"
    and keys: "map fst s = cells"
  shows "propagate so s = Inl AttributeError"
proof -
  from pass_unsolved [OF so inv keys, of "map fst s"] keys obtain s'
    where p: "pass so (map fst s) s = Inr s'" and k': "map fst s' = cells"
      and i': "\<forall>(k, v)\<in>set s'. distinct v \<and> 1 < length v" by auto
  have "solved_count s = 0" using inv by (intro solved_count_unsolved) auto
  moreover have "solved_count s' = 0" using i' by (intro solved_count_unsolved) auto
  ultimately have f: "fixpoint so s = Inr (Some s')" using p by (simp add: fixpoint.simps)
  have d: "distinct (map fst s')" using k' distinct_cells by simp
  have "length (map fst s') = 81" by (simp only: k' length_cells)
  then have "s' \<noteq> []" by auto
  then obtain k0 v0 where kv: "(k0, v0) \<in> set s'" by (cases s') auto
  with i' have "1 < length v0" by auto
  from propagate_stalled [OF f d kv this] show ?thesis .
qed

lemma zero_state_unsolved_all: "\<forall>(k, v)\<in>set zero_state. distinct v \<and> 1 < length v"
  by (auto simp: zero_state_def digits_def)

lemma solve_zero_grid:
  assumes "set_order so"
  shows "solve so (NdArray zero_grid) = Inl AttributeError"
  using propagate_unsolved [OF assms zero_state_unsolved_all zero_state_keys]
  by (simp add: solve.simps is_valid_puzzle_examples to_dictionary_zero_grid)

lemma fixpoint_conflict_state:
  assumes "set_order so"
  shows "fixpoint so conflict_state = Inr (Some (AList.update ''11'' [] conflict_state))"
proof -
  let ?s1 = "AList.update ''11'' [] conflict_state"
  have c: "cells = ''11'' # tl cells" by (simp add: cells_def cross_def digits_def)
  have e: "eliminate so conflict_state ''11'' = Inr ?s1"
    using conflict_state_first conflict_state_first_taken set_order_props(1) [OF assms]
    by (auto simp: eliminate_def split: option.splits sum.splits)
  have "pass so (tl cells) ?s1 = Inr ?s1" by (rule pass_solved_keys [OF conflict_state_rest_solved])
  with e have "pass so (''11'' # tl cells) conflict_state = Inr ?s1" by simp
  with c have "pass so (map fst conflict_state) conflict_state = Inr ?s1"
    by (simp only: conflict_state_keys)
  then show ?thesis by (simp add: fixpoint.simps conflict_state_counts)
qed

lemma propagate_conflict_state:
  assumes "set_order so"
  shows "propagate so conflict_state = Inl ValueError"
proof -
  have "\<not> list_all (\<lambda>(key, value). length value = 1) (AList.update ''11'' [] conflict_state)"
  proof
    assume "list_all (\<lambda>(key, value). length value = 1) (AList.update ''11'' [] conflict_state)"
    then have "empty_count (AList.update ''11'' [] conflict_state) = 0"
      by (auto simp: empty_count_def list_all_iff filter_empty_conv)
    with conflict_state_counts(3) show False by simp
  qed
  then show ?thesis
    by (simp add: propagate.simps fixpoint_conflict_state [OF assms] min_unsolved_conflict_state)
qed

text \<open>
  Claim C3.  When a pass empties a candidate set, \<open>propagate\<close> should report failure.
  The source tests for an empty cell only after the test that leaves the loop, so a pass
  that empties a cell without solving a new one leaves the loop with the empty cell.  In
  the state decoded from \<open>conflict_grid\<close> the neighbours of cell 11 hold all nine
  digits: the loop ends after one pass with the state in which cell 11 is empty, and
  \<open>propagate\<close> goes on to the guess step, where \<open>min\<close> finds no cell with two
  candidates and raises \<open>ValueError\<close>; it does not return \<open>False\<close>.
\<close>

theorem fixpoint_keeps_empty_cell:
  assumes "set_order so"
  shows "to_dictionary (NdArray conflict_grid) ''0'' = Inr conflict_state \<and>
         fixpoint so conflict_state = Inr (Some (AList.update ''11'' [] conflict_state)) \<and>
         empty_count (AList.update ''11'' [] conflict_state) = 1 \<and>
         propagate so conflict_state = Inl ValueError"
  using fixpoint_conflict_state [OF assms] propagate_conflict_state [OF assms]
    to_dictionary_conflict_grid conflict_state_counts(3) by simp

lemma set_order_id: "set_order id"
  by (simp add: set_order_def)

theorem fixpoint_keeps_empty_cell_witness:
  "set_order id \<and>
   fixpoint id conflict_state = Inr (Some (AList.update ''11'' [] conflict_state)) \<and>
   propagate id conflict_state = Inl ValueError"
  using fixpoint_keeps_empty_cell [OF set_order_id] set_order_id by simp

text \<open>
  Claim C1.  \<open>solve\<close> should return a solved grid or the sentinel for every grid and
  never raise.  It is total (the definitions above terminate), but it raises on valid
  puzzles: on the empty grid the loop stalls at once and the guess step calls \<open>solve\<close>
  with a dictionary (\<open>AttributeError\<close>), and on \<open>conflict_grid\<close> the guess step finds
  no cell to guess on (\<open>ValueError\<close>).
\<close>

theorem solve_raises:
  assumes "set_order so"
  shows "solve so (NdArray zero_grid) = Inl AttributeError \<and>
         solve so (NdArray conflict_grid) = Inl ValueError"
  using solve_zero_grid [OF assms] propagate_conflict_state [OF assms]
  by (simp add: solve.simps is_valid_puzzle_examples to_dictionary_conflict_grid)

theorem solve_raises_witness:
  "set_order id \<and> solve id (NdArray zero_grid) = Inl AttributeError \<and>
   solve id (NdArray conflict_grid) = Inl ValueError"
  using solve_raises [OF set_order_id] set_order_id by simp


end
